theory Spec2Isabelle
  imports Main
begin

section \<open>Instrumentation registry (shimmer: \<open>pkgs\<close>, \<open>registerInstrumentation\<close>)\<close>

text \<open>
  A hook is a JavaScript function value; the registry only stores it and tests it for
  truthiness, so it is modelled as an opaque reference.
\<close>

datatype hook = Hook nat

text \<open>
  The options object handed to \<open>registerInstrumentation\<close>. A property that is missing
  (\<open>undefined\<close>) is \<open>None\<close>. The empty string is a present but falsy \<open>moduleName\<close>.
  The \<open>specifier\<close> property is the one the loader's main-thread handler adds to its copies.
\<close>

record descriptor =
  moduleName :: "string option"
  onRequire :: "hook option"
  onResolved :: "hook option"
  specifier :: "string option"

text \<open>
  \<open>const pkgs = Object.create(null)\<close>: an object with no prototype, so a property read
  finds own properties only; every string key behaves alike. The table maps a module name
  to the array of descriptors pushed under it.
\<close>

type_synonym pkgs = "string \<rightharpoonup> descriptor list"

definition pkgs :: pkgs where
  "pkgs = Map.empty"

text \<open>JavaScript truthiness of a string-valued property: missing and \<open>''\<close> are falsy.\<close>

definition truthy_string :: "string option \<Rightarrow> bool" where
  "truthy_string s = (case s of None \<Rightarrow> False | Some v \<Rightarrow> v \<noteq> [])"

text \<open>\<open>opts\<close> itself may be absent (\<open>undefined\<close> or \<open>null\<close>): \<open>None\<close>.\<close>

definition hasValidRegisterOptions :: "descriptor option \<Rightarrow> bool" where
  "hasValidRegisterOptions opts =
     (case opts of
        None \<Rightarrow> False
      | Some d \<Rightarrow>
          if \<not> truthy_string (moduleName d) then False
          else if onRequire d = None \<and> onResolved d = None then False
          else True)"

text \<open>
  \<open>registerInstrumentation\<close> mutates \<open>pkgs\<close>; the model takes the table and returns the
  new one. An array is truthy even when empty, so the entry is created only when the key
  is missing. The spread copy \<open>{ ...opts }\<close> has the same properties as \<open>opts\<close>.
\<close>

definition registerInstrumentation :: "descriptor option \<Rightarrow> pkgs \<Rightarrow> pkgs" where
  "registerInstrumentation opts t =
     (if \<not> hasValidRegisterOptions opts then t
      else
        (case opts of
           None \<Rightarrow> t
         | Some d \<Rightarrow>
             (case moduleName d of
                None \<Rightarrow> t
              | Some name \<Rightarrow>
                  let t1 = (case t name of None \<Rightarrow> t(name \<mapsto> []) | Some _ \<Rightarrow> t)
                  in (case t1 name of
                        None \<Rightarrow> t1
                      | Some ds \<Rightarrow> t1(name \<mapsto> ds @ [d])))))"

text \<open>Reading the table as the loader does: \<open>pkgs[name]\<close>, a missing key giving no descriptors.\<close>

definition lookup :: "pkgs \<Rightarrow> string \<Rightarrow> descriptor list" where
  "lookup t name = (case t name of None \<Rightarrow> [] | Some ds \<Rightarrow> ds)"

text \<open>A run of registration calls, in order, starting from a given table.\<close>

fun registerAll :: "descriptor option list \<Rightarrow> pkgs \<Rightarrow> pkgs" where
  "registerAll [] t = t"
| "registerAll (opts # rest) t = registerAll rest (registerInstrumentation opts t)"

text \<open>The module names a run of calls registers under (the valid calls only).\<close>

fun registeredNames :: "descriptor option list \<Rightarrow> string list" where
  "registeredNames [] = []"
| "registeredNames (opts # rest) =
     (if hasValidRegisterOptions opts
      then (case opts of
              None \<Rightarrow> registeredNames rest
            | Some d \<Rightarrow> (case moduleName d of
                           None \<Rightarrow> registeredNames rest
                         | Some name \<Rightarrow> name # registeredNames rest))
      else registeredNames rest)"

section \<open>Context manager factory (\<open>create-context-manager.js\<close>)\<close>

text \<open>
  The agent configuration. Only \<open>feature_flag.new_async_context\<close> is read by the factory;
  \<open>app_name\<close> and the custom ESM entry point are other settings the repository reads
  elsewhere, and both records are extensible, standing for any further settings.
\<close>

record feature_flag =
  new_async_context :: bool

record 'f config =
  app_name :: string
  custom_instrumentation_entrypoint :: "string option"
  feature_flag :: "'f feature_flag_scheme"

datatype context_manager = AsyncLocalContextManager | LegacyContextManager

definition createContextManager :: "('f, 'c) config_scheme \<Rightarrow> context_manager" where
  "createContextManager cfg =
     (if new_async_context (feature_flag cfg) then AsyncLocalContextManager
      else LegacyContextManager)"

section \<open>ESM loader hooks (\<open>esm-loader.mjs\<close>: \<open>resolve\<close>, \<open>load\<close>, \<open>wrapEsmSource\<close>)\<close>

subsection \<open>Values the hooks exchange\<close>

text \<open>
  What a hook can throw: a property read on \<open>undefined\<close>, \<open>fileURLToPath\<close> on a URL that
  is not a file URL, and a rejection of the next hook in the chain or of a dynamic import.
\<close>

datatype js_error = TypeError | ERR_INVALID_URL_SCHEME | Rejected string

text \<open>
  The record a resolver returns: \<open>{ url, format, ... }\<close>. \<open>format\<close> may be missing. The
  record is extensible: whatever else the next resolver puts there is carried along.
\<close>

record resolved_module =
  url :: string
  format :: "string option"

record hook_context =
  parentURL :: "string option"

text \<open>The value stored in \<open>registeredSpecifiers\<close>: \<open>{ specifier, hasNrInstrumentation }\<close>.\<close>

record resolution_record =
  seen_specifier :: string
  hasNrInstrumentation :: bool

text \<open>The message posted on the preload port: \<open>{ details: { specifier, resolvedModule, filePath } }\<close>.\<close>

record 'm details =
  details_specifier :: string
  resolvedModule :: "'m resolved_module_scheme"
  filePath :: string

text \<open>The record a loader returns: \<open>{ format, source, shortCircuit }\<close>.\<close>

record load_result =
  load_format :: string
  source :: "string option"
  shortCircuit :: bool

record version =
  major :: nat
  minor :: nat
  patch :: nat

text \<open>
  What the loader module takes from outside this file: whether \<open>newrelic.agent\<close> is
  set, \<open>process.version\<close>, shimmer's \<open>getInstrumentationNameFromModuleName\<close>, Node's
  \<open>fileURLToPath\<close> (\<open>None\<close> where it throws), the URL of the shim module, and the export
  names a dynamic \<open>import(url)\<close> yields (\<open>Object.keys\<close> of the namespace), or its rejection.
\<close>

record env =
  agent :: bool
  process_version :: version
  getInstrumentationNameFromModuleName :: "string \<Rightarrow> string"
  fileURLToPath :: "string \<Rightarrow> string option"
  esmShimPath_href :: string
  import_keys :: "string \<Rightarrow> js_error + string list"

text \<open>
  The module-level state: shimmer's registry as this thread sees it, the
  \<open>registeredSpecifiers\<close> map, and \<open>preloadPort\<close>, which is \<open>undefined\<close> until
  \<open>globalPreload\<close> has run; a port is modelled by the messages posted on it so far.
\<close>

record 'm loader_state =
  registeredInstrumentations :: pkgs
  registeredSpecifiers :: "string \<rightharpoonup> resolution_record"
  preloadPort :: "'m details list option"

subsection \<open>Guards\<close>

definition semver_gte :: "version \<Rightarrow> version \<Rightarrow> bool" where
  "semver_gte a b =
     (major a > major b
      \<or> (major a = major b
          \<and> (minor a > minor b \<or> (minor a = minor b \<and> patch a \<ge> patch b))))"

definition isSupportedVersion :: "version \<Rightarrow> bool" where
  "isSupportedVersion v = semver_gte v \<lparr>major = 16, minor = 12, patch = 0\<rparr>"

text \<open>\<open>String.prototype.includes\<close>: the pattern occurs somewhere in the string.\<close>

fun str_includes :: "string \<Rightarrow> string \<Rightarrow> bool" where
  "str_includes [] pat = (pat = [])"
| "str_includes (c # cs) pat = (take (length pat) (c # cs) = pat \<or> str_includes cs pat)"

text \<open>
  \<open>context && context.parentURL && context.parentURL.includes(...)\<close>, read for its
  truthiness: a missing context, a missing or empty parent URL are falsy.
\<close>

definition isFromEsmLoader :: "'c hook_context_scheme option \<Rightarrow> bool" where
  "isFromEsmLoader ctx =
     (case ctx of
        None \<Rightarrow> False
      | Some c \<Rightarrow>
          (case parentURL c of
             None \<Rightarrow> False
           | Some p \<Rightarrow> p \<noteq> [] \<and> str_includes p ''newrelic/esm-loader.mjs''))"

subsection \<open>The two format names\<close>

text \<open>
  The hooks compare \<open>format\<close> with two literals. \<open>'module'\<close> is an ES module: its
  namespace object is immutable once loaded, so it is intercepted by rewriting its source
  (the rewrite-required format). \<open>'commonjs'\<close> is a CommonJS module, whose exports object
  can be patched in place after loading (the live-mutation format).
\<close>

definition rewrite_required_format :: string where
  "rewrite_required_format = ''module''"

definition live_mutation_format :: string where
  "live_mutation_format = ''commonjs''"

subsection \<open>\<open>globalPreload\<close> and \<open>resolve\<close>\<close>

definition globalPreload :: "'m details list \<Rightarrow> 'm loader_state \<Rightarrow> 'm loader_state" where
  "globalPreload port st = st\<lparr>preloadPort := Some port\<rparr>"

text \<open>
  \<open>resolve\<close> returns the record, or throws; it may write \<open>registeredSpecifiers\<close> and post
  on the port. The \<open>logger.debug\<close> calls have no effect on the state, but the argument of
  the first one evaluates \<open>fileURLToPath(url)\<close>, which can throw. An entry of
  \<open>registeredSpecifiers\<close> is an object, and an entry of the registry is an array: both are
  truthy whenever they are present.
\<close>

definition resolve ::
  "env \<Rightarrow> 'm loader_state \<Rightarrow> string \<Rightarrow> 'c hook_context_scheme option
     \<Rightarrow> (string \<Rightarrow> 'c hook_context_scheme option \<Rightarrow> js_error + 'm resolved_module_scheme)
     \<Rightarrow> js_error + ('m resolved_module_scheme \<times> 'm loader_state)" where
  "resolve e st spec ctx nextResolve =
     (if \<not> agent e \<or> \<not> isSupportedVersion (process_version e) \<or> isFromEsmLoader ctx then
        (case nextResolve spec ctx of
           Inl err \<Rightarrow> Inl err
         | Inr r \<Rightarrow> Inr (r, st))
      else
        (case nextResolve spec ctx of
           Inl err \<Rightarrow> Inl err
         | Inr r \<Rightarrow>
             if registeredSpecifiers st (url r) \<noteq> None then
               (case fileURLToPath e (url r) of
                  None \<Rightarrow> Inl ERR_INVALID_URL_SCHEME
                | Some _ \<Rightarrow> Inr (r, st))
             else if format r = Some ''module'' then
               (if registeredInstrumentations st (getInstrumentationNameFromModuleName e spec) \<noteq> None
                then Inr (r, st\<lparr>registeredSpecifiers :=
                            (registeredSpecifiers st)
                              (url r \<mapsto> \<lparr>seen_specifier = spec, hasNrInstrumentation = True\<rparr>)\<rparr>)
                else Inr (r, st))
             else if format r = Some ''commonjs'' then
               (case fileURLToPath e (url r) of
                  None \<Rightarrow> Inl ERR_INVALID_URL_SCHEME
                | Some p \<Rightarrow>
                    (case preloadPort st of
                       None \<Rightarrow> Inl TypeError
                     | Some posted \<Rightarrow>
                         Inr (r, st\<lparr>preloadPort :=
                                     Some (posted @ [\<lparr>details_specifier = spec,
                                                      resolvedModule = r,
                                                      filePath = p\<rparr>])\<rparr>)))
             else Inr (r, st)))"

subsection \<open>\<open>wrapEsmSource\<close> and \<open>load\<close>\<close>

definition nl :: char where
  "nl = CHR 0x0A"

definition sq :: char where
  "sq = CHR 0x27"

text \<open>\<open>Array.prototype.join\<close>.\<close>

fun join :: "string \<Rightarrow> string list \<Rightarrow> string" where
  "join sep [] = []"
| "join sep [x] = x"
| "join sep (x # y # ys) = x @ sep @ join sep (y # ys)"

text \<open>The two lines the inner template produces for one export name, and the template itself.\<close>

definition let_line :: "string \<Rightarrow> string" where
  "let_line propName = ''    let _'' @ propName @ '' = _wrappedModule.'' @ propName"

definition export_line :: "string \<Rightarrow> string" where
  "export_line propName = ''    export { _'' @ propName @ '' as '' @ propName @ '' }''"

definition export_binding :: "string \<Rightarrow> string" where
  "export_binding propName = nl # let_line propName @ nl # export_line propName"

definition import_shim_line :: "string \<Rightarrow> string" where
  "import_shim_line href = ''    import wrapModule from '' @ sq # href @ [sq]"

definition import_original_line :: "string \<Rightarrow> string" where
  "import_original_line u = ''    import * as _originalModule from '' @ sq # u @ [sq]"

definition wrap_line :: "string \<Rightarrow> string \<Rightarrow> string" where
  "wrap_line spec trimmedUrl =
     ''    const _wrappedModule = wrapModule(_originalModule, '' @ sq # spec @ [sq]
       @ '', '' @ sq # trimmedUrl @ [sq] @ '')''"

text \<open>The outer template of \<open>wrapEsmSource\<close>, character by character.\<close>

definition rewritten_source :: "string \<Rightarrow> string \<Rightarrow> string \<Rightarrow> string \<Rightarrow> string list \<Rightarrow> string" where
  "rewritten_source href u spec trimmedUrl props =
     nl # import_shim_line href
     @ nl # import_original_line u
     @ nl # wrap_line spec trimmedUrl
     @ nl # ''    '' @ join [nl] (map export_binding props)
     @ nl # ''  ''"

definition wrapEsmSource :: "env \<Rightarrow> string \<Rightarrow> string \<Rightarrow> js_error + string" where
  "wrapEsmSource e u spec =
     (case import_keys e u of
        Inl err \<Rightarrow> Inl err
      | Inr props \<Rightarrow>
          (case fileURLToPath e u of
             None \<Rightarrow> Inl ERR_INVALID_URL_SCHEME
           | Some trimmedUrl \<Rightarrow>
               Inr (rewritten_source (esmShimPath_href e) u spec trimmedUrl props)))"

text \<open>\<open>load\<close> writes nothing; it returns the state it was given beside its result.\<close>

definition load ::
  "env \<Rightarrow> 'm loader_state \<Rightarrow> string \<Rightarrow> 'x
     \<Rightarrow> (string \<Rightarrow> 'x \<Rightarrow> js_error + load_result)
     \<Rightarrow> js_error + (load_result \<times> 'm loader_state)" where
  "load e st u ctx nextLoad =
     (if \<not> agent e \<or> \<not> isSupportedVersion (process_version e) then
        (case nextLoad u ctx of Inl err \<Rightarrow> Inl err | Inr res \<Rightarrow> Inr (res, st))
      else
        (case registeredSpecifiers st u of
           None \<Rightarrow>
             (case nextLoad u ctx of Inl err \<Rightarrow> Inl err | Inr res \<Rightarrow> Inr (res, st))
         | Some seenUrl \<Rightarrow>
             if \<not> hasNrInstrumentation seenUrl then
               (case nextLoad u ctx of Inl err \<Rightarrow> Inl err | Inr res \<Rightarrow> Inr (res, st))
             else
               (case wrapEsmSource e u (seen_specifier seenUrl) of
                  Inl err \<Rightarrow> Inl err
                | Inr rewrittenSource \<Rightarrow>
                    Inr (\<lparr>load_format = ''module'', source = Some rewrittenSource,
                          shortCircuit = True\<rparr>, st))))"

subsection \<open>Reading the hooks' results\<close>

text \<open>Whether the table classifies a URL as having instrumentation, as \<open>load\<close> tests it.\<close>

definition hasInstrumentation :: "'m loader_state \<Rightarrow> string \<Rightarrow> bool" where
  "hasInstrumentation st u =
     (case registeredSpecifiers st u of None \<Rightarrow> False | Some seen \<Rightarrow> hasNrInstrumentation seen)"

text \<open>The lines of a text, split at every line feed.\<close>

fun split_lines :: "string \<Rightarrow> string list" where
  "split_lines [] = [[]]"
| "split_lines (c # cs) =
     (if c = nl then [] # split_lines cs
      else (case split_lines cs of
              [] \<Rightarrow> [[c]]
            | l # ls \<Rightarrow> (c # l) # ls))"

definition is_export_line :: "string \<Rightarrow> bool" where
  "is_export_line l = (take 11 l = ''    export '')"

definition one_line :: "string \<Rightarrow> bool" where
  "one_line s = (nl \<notin> set s)"

section \<open>Concrete inputs\<close>

text \<open>A valid descriptor, a table in which it is already registered, and two invalid ones.\<close>

definition pg_descriptor :: descriptor where
  "pg_descriptor =
     \<lparr>moduleName = Some ''pg'', onRequire = Some (Hook 1), onResolved = None, specifier = None\<rparr>"

definition pg_registered :: pkgs where
  "pg_registered = registerInstrumentation (Some pg_descriptor) pkgs"

definition unnamed_descriptor :: descriptor where
  "unnamed_descriptor =
     \<lparr>moduleName = Some [], onRequire = Some (Hook 1), onResolved = None, specifier = None\<rparr>"

definition hookless_descriptor :: descriptor where
  "hookless_descriptor =
     \<lparr>moduleName = Some ''pg'', onRequire = None, onResolved = None, specifier = None\<rparr>"

definition toString_descriptor :: descriptor where
  "toString_descriptor =
     \<lparr>moduleName = Some ''toString'', onRequire = None, onResolved = Some (Hook 2),
      specifier = None\<rparr>"

text \<open>Two configurations that differ in everything but the flag.\<close>

definition config_a :: "(unit, unit) config_scheme" where
  "config_a =
     \<lparr>app_name = ''shop'', custom_instrumentation_entrypoint = None,
      feature_flag = \<lparr>new_async_context = True\<rparr>\<rparr>"

definition config_b :: "(unit, unit) config_scheme" where
  "config_b =
     \<lparr>app_name = ''billing'', custom_instrumentation_entrypoint = Some ''./custom.mjs'',
      feature_flag = \<lparr>new_async_context = True\<rparr>\<rparr>"

text \<open>
  A loader environment: Node 18 with the agent loaded, the registry key of a specifier
  being the specifier itself, and a path conversion that accepts file URLs only.
\<close>

definition file_url_path :: "string \<Rightarrow> string option" where
  "file_url_path u = (if take 7 u = ''file://'' then Some (drop 7 u) else None)"

definition node18 :: env where
  "node18 =
     \<lparr>agent = True,
      process_version = \<lparr>major = 18, minor = 12, patch = 1\<rparr>,
      getInstrumentationNameFromModuleName = (\<lambda>s. s),
      fileURLToPath = file_url_path,
      esmShimPath_href = ''file:///app/node_modules/newrelic/lib/esm-shim.mjs'',
      import_keys = (\<lambda>u. Inr [''Client'', ''default''])\<rparr>"

definition node14 :: env where
  "node14 = node18\<lparr>process_version := \<lparr>major = 14, minor = 21, patch = 3\<rparr>\<rparr>"

text \<open>
  The state when the loader module has been evaluated (\<open>pg\<close> registered, nothing resolved,
  \<open>preloadPort\<close> still \<open>undefined\<close>), and the state once \<open>globalPreload\<close> has set the port.
\<close>

definition loaded :: "unit loader_state" where
  "loaded =
     \<lparr>registeredInstrumentations = pg_registered,
      registeredSpecifiers = Map.empty,
      preloadPort = None\<rparr>"

definition started :: "unit loader_state" where
  "started = globalPreload [] loaded"

text \<open>Resolved records of an ES module and of a CommonJS module, and resolvers giving them.\<close>

definition pg_esm :: resolved_module where
  "pg_esm = \<lparr>url = ''file:///app/node_modules/pg/esm/index.mjs'', format = Some ''module''\<rparr>"

definition pg_cjs :: resolved_module where
  "pg_cjs = \<lparr>url = ''file:///app/node_modules/pg/lib/index.js'', format = Some ''commonjs''\<rparr>"

definition next_gives ::
  "resolved_module \<Rightarrow> string \<Rightarrow> hook_context option \<Rightarrow> js_error + resolved_module" where
  "next_gives r spec ctx = Inr r"

definition next_source :: "string \<Rightarrow> unit \<Rightarrow> js_error + load_result" where
  "next_source u ctx =
     Inr \<lparr>load_format = ''module'', source = Some ''export class Client {}'',
          shortCircuit = False\<rparr>"

definition pg_seen :: "unit loader_state" where
  "pg_seen =
     started\<lparr>registeredSpecifiers :=
               [url pg_esm \<mapsto> \<lparr>seen_specifier = ''pg'', hasNrInstrumentation = True\<rparr>]\<rparr>"

definition pg_posted :: "unit loader_state" where
  "pg_posted =
     started\<lparr>preloadPort :=
               Some [\<lparr>details_specifier = ''pg'', resolvedModule = pg_cjs,
                      filePath = ''/app/node_modules/pg/lib/index.js''\<rparr>]\<rparr>"

text \<open>The text \<open>wrapEsmSource\<close> produces for that module, written out.\<close>

definition pg_rewritten :: string where
  "pg_rewritten =
     [CHR 0x0A] @ ''    import wrapModule from '' @ [CHR 0x27]
       @ ''file:///app/node_modules/newrelic/lib/esm-shim.mjs'' @ [CHR 0x27, CHR 0x0A]
     @ ''    import * as _originalModule from '' @ [CHR 0x27]
       @ ''file:///app/node_modules/pg/esm/index.mjs'' @ [CHR 0x27, CHR 0x0A]
     @ ''    const _wrappedModule = wrapModule(_originalModule, '' @ [CHR 0x27] @ ''pg''
       @ [CHR 0x27] @ '', '' @ [CHR 0x27] @ ''/app/node_modules/pg/esm/index.mjs''
       @ [CHR 0x27] @ '')'' @ [CHR 0x0A]
     @ ''    '' @ [CHR 0x0A]
     @ ''    let _Client = _wrappedModule.Client'' @ [CHR 0x0A]
     @ ''    export { _Client as Client }'' @ [CHR 0x0A]
     @ [CHR 0x0A]
     @ ''    let _default = _wrappedModule.default'' @ [CHR 0x0A]
     @ ''    export { _default as default }'' @ [CHR 0x0A]
     @ ''  ''"

text \<open>The same environment with a module whose dynamic import rejects.\<close>

definition node18_import_rejects :: env where
  "node18_import_rejects = node18\<lparr>import_keys := (\<lambda>u. Inl (Rejected ''SyntaxError''))\<rparr>"

section \<open>Registry: properties\<close>

lemma valid_options_iff:
  "hasValidRegisterOptions opts \<longleftrightarrow>
     (\<exists>d name. opts = Some d \<and> moduleName d = Some name \<and> name \<noteq> []
        \<and> (onRequire d \<noteq> None \<or> onResolved d \<noteq> None))"
  by (auto simp: hasValidRegisterOptions_def truthy_string_def split: option.splits)

lemma register_valid:
  assumes "hasValidRegisterOptions (Some d)" and "moduleName d = Some name"
  shows "registerInstrumentation (Some d) t = t(name \<mapsto> lookup t name @ [d])"
  using assms by (auto simp: registerInstrumentation_def lookup_def split: option.splits)

lemma register_invalid:
  "\<not> hasValidRegisterOptions opts \<Longrightarrow> registerInstrumentation opts t = t"
  by (simp add: registerInstrumentation_def)

lemma registerAll_other:
  "name \<notin> set (registeredNames calls) \<Longrightarrow> registerAll calls t name = t name"
proof (induction calls arbitrary: t)
  case Nil
  show ?case by simp
next
  case (Cons opts rest)
  show ?case
  proof (cases "hasValidRegisterOptions opts")
    case False
    with Cons show ?thesis by (simp add: register_invalid)
  next
    case True
    then obtain d n where o: "opts = Some d" and n: "moduleName d = Some n"
      by (auto simp: valid_options_iff)
    from Cons.prems True o n have ne: "name \<noteq> n" and rest: "name \<notin> set (registeredNames rest)"
      by auto
    have "registerAll (opts # rest) t name = registerInstrumentation opts t name"
      using Cons.IH [OF rest] by simp
    also have "\<dots> = t name"
      using register_valid [OF True [unfolded o] n] ne by (simp add: o)
    finally show ?thesis .
  qed
qed

subsection \<open>Registration of a valid descriptor\<close>

text \<open>
  Claim C6, as the code has it. For a valid descriptor \<open>d\<close> (non-empty \<open>moduleName\<close>, at
  least one hook), \<open>registerInstrumentation\<close> pushes one copy of \<open>d\<close> at the end of the
  sequence stored under \<open>d.moduleName\<close>: the lookup afterwards is the earlier lookup followed
  by \<open>d\<close>, so \<open>d\<close> occurs once more than before, and exactly once when it was not
  registered under that name before. The entry of every other module name is unchanged.
\<close>

theorem register_appends_one_copy:
  assumes "hasValidRegisterOptions (Some d)" and "moduleName d = Some name"
  shows "lookup (registerInstrumentation (Some d) t) name = lookup t name @ [d]
       \<and> count_list (lookup (registerInstrumentation (Some d) t) name) d
           = Suc (count_list (lookup t name) d)
       \<and> (d \<notin> set (lookup t name)
            \<longrightarrow> count_list (lookup (registerInstrumentation (Some d) t) name) d = 1)
       \<and> (\<forall>other. other \<noteq> name
            \<longrightarrow> registerInstrumentation (Some d) t other = t other)"
proof -
  have upd: "registerInstrumentation (Some d) t = t(name \<mapsto> lookup t name @ [d])"
    using assms by (rule register_valid)
  have app: "lookup (registerInstrumentation (Some d) t) name = lookup t name @ [d]"
    by (simp add: upd lookup_def)
  have cnt: "count_list (lookup t name @ [d]) d = Suc (count_list (lookup t name) d)"
    by simp
  have fresh: "d \<notin> set (lookup t name) \<Longrightarrow> count_list (lookup t name) d = 0"
    by (simp add: count_list_0_iff)
  show ?thesis
    using app cnt fresh by (simp add: upd)
qed

text \<open>The same at a concrete table: a first and a second registration of one descriptor.\<close>

theorem register_appends_one_copy_witness:
  "lookup (registerInstrumentation (Some pg_descriptor) pg_registered) ''pg''
     = [pg_descriptor, pg_descriptor]
   \<and> lookup (registerInstrumentation (Some pg_descriptor) pkgs) ''pg'' = [pg_descriptor]
   \<and> registerInstrumentation (Some pg_descriptor) pg_registered ''mysql'' = None"
proof -
  have v: "hasValidRegisterOptions (Some pg_descriptor)"
    by (simp add: hasValidRegisterOptions_def truthy_string_def pg_descriptor_def)
  have n: "moduleName pg_descriptor = Some ''pg''"
    by (simp add: pg_descriptor_def)
  have one: "lookup pg_registered ''pg'' = [pg_descriptor]"
    using register_appends_one_copy [OF v n, of pkgs]
    by (simp add: pg_registered_def lookup_def pkgs_def)
  have other: "pg_registered ''mysql'' = None"
    using register_appends_one_copy [OF v n, of pkgs]
    by (simp add: pg_registered_def pkgs_def)
  show ?thesis
    using register_appends_one_copy [OF v n, of pg_registered]
      register_appends_one_copy [OF v n, of pkgs] one other
    by (simp add: lookup_def pkgs_def)
qed

text \<open>
  Claim C6 as worded says the lookup contains \<open>d\<close> exactly once. Nothing in
  \<open>registerInstrumentation\<close> looks for an earlier copy: registering a descriptor that is
  already in the table leaves two equal entries.
\<close>

theorem register_twice_counterexample:
  "hasValidRegisterOptions (Some pg_descriptor)
   \<and> moduleName pg_descriptor = Some ''pg''
   \<and> count_list (lookup (registerInstrumentation (Some pg_descriptor) pg_registered) ''pg'')
        pg_descriptor = 2"
  by (simp add: hasValidRegisterOptions_def truthy_string_def pg_descriptor_def
      pg_registered_def registerInstrumentation_def lookup_def pkgs_def)

subsection \<open>Registration of an invalid descriptor\<close>

text \<open>
  Claim C7. When the options are absent, or \<open>moduleName\<close> is missing or empty, or neither
  \<open>onRequire\<close> nor \<open>onResolved\<close> is present, \<open>hasValidRegisterOptions\<close> answers false and
  \<open>registerInstrumentation\<close> returns with the table as it was, for every module name. The
  function has no throwing step: it is total, with the table as its only result.
\<close>

theorem register_invalid_no_effect:
  assumes "opts = None
         \<or> (\<exists>d. opts = Some d
               \<and> (moduleName d = None \<or> moduleName d = Some []
                   \<or> (onRequire d = None \<and> onResolved d = None)))"
  shows "\<not> hasValidRegisterOptions opts
       \<and> registerInstrumentation opts t = t
       \<and> (\<forall>name. lookup (registerInstrumentation opts t) name = lookup t name)"
proof -
  have inv: "\<not> hasValidRegisterOptions opts"
    using assms by (auto simp: valid_options_iff)
  then show ?thesis
    by (simp add: register_invalid)
qed

text \<open>Absent options, an empty name and a descriptor without hooks, on a non-empty table.\<close>

theorem register_invalid_no_effect_witness:
  "registerInstrumentation None pg_registered = pg_registered
   \<and> registerInstrumentation (Some unnamed_descriptor) pg_registered = pg_registered
   \<and> registerInstrumentation (Some hookless_descriptor) pg_registered = pg_registered
   \<and> lookup (registerInstrumentation (Some hookless_descriptor) pg_registered) ''pg''
       = [pg_descriptor]"
proof -
  have v: "hasValidRegisterOptions (Some pg_descriptor)"
    by (simp add: hasValidRegisterOptions_def truthy_string_def pg_descriptor_def)
  have one: "lookup pg_registered ''pg'' = [pg_descriptor]"
    using v by (simp add: pg_registered_def registerInstrumentation_def lookup_def pkgs_def
        pg_descriptor_def)
  have a: "(None :: descriptor option) = None
         \<or> (\<exists>d. (None :: descriptor option) = Some d
               \<and> (moduleName d = None \<or> moduleName d = Some []
                   \<or> (onRequire d = None \<and> onResolved d = None)))"
    by simp
  have b: "Some unnamed_descriptor = None
         \<or> (\<exists>d. Some unnamed_descriptor = Some d
               \<and> (moduleName d = None \<or> moduleName d = Some []
                   \<or> (onRequire d = None \<and> onResolved d = None)))"
    by (simp add: unnamed_descriptor_def)
  have c: "Some hookless_descriptor = None
         \<or> (\<exists>d. Some hookless_descriptor = Some d
               \<and> (moduleName d = None \<or> moduleName d = Some []
                   \<or> (onRequire d = None \<and> onResolved d = None)))"
    by (simp add: hookless_descriptor_def)
  show ?thesis
    using register_invalid_no_effect [OF a, of pg_registered]
      register_invalid_no_effect [OF b, of pg_registered]
      register_invalid_no_effect [OF c, of pg_registered] one
    by simp
qed

subsection \<open>A table without prototype\<close>

text \<open>
  Claim C10. The table starts as \<open>Object.create(null)\<close>, with no inherited property. After
  any run of registration calls, a name none of them registered under is still missing from
  the table, so its lookup finds no descriptors; this holds for every string, the names of
  \<open>Object.prototype\<close> properties included. Registering a valid descriptor under such a
  name stores it, and the lookup gives back that one descriptor.
\<close>

theorem unregistered_name_has_no_descriptors:
  assumes "name \<notin> set (registeredNames calls)"
  shows "registerAll calls pkgs name = None
       \<and> lookup (registerAll calls pkgs) name = []
       \<and> (hasValidRegisterOptions (Some d) \<and> moduleName d = Some name
            \<longrightarrow> lookup (registerInstrumentation (Some d) (registerAll calls pkgs)) name = [d])"
proof -
  have none: "registerAll calls pkgs name = None"
    using registerAll_other [OF assms, of pkgs] by (simp add: pkgs_def)
  then have empty: "lookup (registerAll calls pkgs) name = []"
    by (simp add: lookup_def)
  have "lookup (registerInstrumentation (Some d) (registerAll calls pkgs)) name = [d]"
    if "hasValidRegisterOptions (Some d)" and "moduleName d = Some name"
    using register_valid [OF that, of "registerAll calls pkgs"] empty
    by (simp add: lookup_def)
  with none empty show ?thesis by blast
qed

text \<open>The names \<open>toString\<close>, \<open>constructor\<close> and \<open>hasOwnProperty\<close> after other registrations.\<close>

theorem unregistered_name_has_no_descriptors_witness:
  "lookup (registerAll [Some pg_descriptor, None] pkgs) ''toString'' = []
   \<and> lookup (registerAll [Some pg_descriptor, None] pkgs) ''constructor'' = []
   \<and> lookup (registerAll [Some pg_descriptor, None] pkgs) ''hasOwnProperty'' = []
   \<and> lookup (registerInstrumentation (Some toString_descriptor)
               (registerAll [Some pg_descriptor, None] pkgs)) ''toString''
       = [toString_descriptor]"
proof -
  have pg: "hasValidRegisterOptions (Some pg_descriptor)"
    by (simp add: hasValidRegisterOptions_def truthy_string_def pg_descriptor_def)
  have no: "\<not> hasValidRegisterOptions None"
    by (simp add: hasValidRegisterOptions_def)
  have nm: "moduleName pg_descriptor = Some ''pg''"
    by (simp add: pg_descriptor_def)
  have names: "registeredNames [Some pg_descriptor, None] = [''pg'']"
    by (simp add: pg no nm)
  have a: "''toString'' \<notin> set (registeredNames [Some pg_descriptor, None])"
    unfolding names by simp
  have b: "''constructor'' \<notin> set (registeredNames [Some pg_descriptor, None])"
    unfolding names by simp
  have c: "''hasOwnProperty'' \<notin> set (registeredNames [Some pg_descriptor, None])"
    unfolding names by simp
  have v: "hasValidRegisterOptions (Some toString_descriptor)
         \<and> moduleName toString_descriptor = Some ''toString''"
    by (simp add: hasValidRegisterOptions_def truthy_string_def toString_descriptor_def)
  show ?thesis
    using unregistered_name_has_no_descriptors [OF a, of toString_descriptor]
      unregistered_name_has_no_descriptors [OF b, of toString_descriptor]
      unregistered_name_has_no_descriptors [OF c, of toString_descriptor] v
    by simp
qed

section \<open>Context manager factory: properties\<close>

text \<open>
  Claim C9. \<open>createContextManager\<close> returns the AsyncLocal implementation exactly when
  \<open>feature_flag.new_async_context\<close> is set and the legacy implementation otherwise. Each
  call reads that flag once and nothing else: two configurations that agree on the flag
  get the same implementation, whatever their other settings.
\<close>

theorem context_manager_by_flag:
  "(createContextManager cfg = AsyncLocalContextManager
      \<longleftrightarrow> new_async_context (feature_flag cfg))
   \<and> (createContextManager cfg = LegacyContextManager
      \<longleftrightarrow> \<not> new_async_context (feature_flag cfg))
   \<and> (new_async_context (feature_flag cfg) = new_async_context (feature_flag cfg')
      \<longrightarrow> createContextManager cfg = createContextManager cfg')"
  by (simp add: createContextManager_def)

text \<open>Two configurations with different other settings and the same flag, and the flag cleared.\<close>

theorem context_manager_by_flag_witness:
  "config_a \<noteq> config_b
   \<and> createContextManager config_a = AsyncLocalContextManager
   \<and> createContextManager config_b = AsyncLocalContextManager
   \<and> createContextManager (config_b\<lparr>feature_flag := \<lparr>new_async_context = False\<rparr>\<rparr>)
       = LegacyContextManager"
proof -
  have f: "new_async_context (feature_flag config_a) = new_async_context (feature_flag config_b)"
    by (simp add: config_a_def config_b_def)
  have ne: "config_a \<noteq> config_b"
    by (simp add: config_a_def config_b_def)
  have a: "new_async_context (feature_flag config_a)"
    by (simp add: config_a_def)
  have same: "createContextManager config_a = createContextManager config_b"
    using context_manager_by_flag [of config_a config_b] f by blast
  have isa: "createContextManager config_a = AsyncLocalContextManager"
    using context_manager_by_flag [of config_a config_b] a by blast
  have isb: "createContextManager config_b = AsyncLocalContextManager"
    using same isa by simp
  have off: "\<not> new_async_context
               (feature_flag (config_b\<lparr>feature_flag := \<lparr>new_async_context = False\<rparr>\<rparr>))"
    by simp
  have legacy: "createContextManager (config_b\<lparr>feature_flag := \<lparr>new_async_context = False\<rparr>\<rparr>)
                  = LegacyContextManager"
    using context_manager_by_flag
      [of "config_b\<lparr>feature_flag := \<lparr>new_async_context = False\<rparr>\<rparr>" config_b] off
    by blast
  show ?thesis
    using ne isa isb legacy by blast
qed

section \<open>Loader: the rewritten source, line by line\<close>

text \<open>
  The generated text is read through its lines. A piece of text without a line feed stays
  on one line, so the lines of the source are the fixed prelude lines followed by the two
  lines of each export binding.
\<close>

lemma split_lines_first:
  "one_line a \<Longrightarrow> split_lines (a @ nl # b) = a # split_lines b"
  by (induction a) (auto simp: one_line_def split: list.splits)

lemma split_lines_single: "one_line a \<Longrightarrow> split_lines a = [a]"
  by (induction a) (auto simp: one_line_def split: list.splits)

lemma str_includes_prefix: "str_includes (pat @ b) pat"
proof (cases "pat @ b")
  case Nil
  then show ?thesis by simp
next
  case (Cons c cs)
  have "take (length pat) (pat @ b) = pat" by simp
  then show ?thesis by (simp add: Cons)
qed

lemma str_includes_append: "str_includes (a @ pat @ b) pat"
proof (induction a)
  case Nil
  show ?case using str_includes_prefix [of pat b] by simp
next
  case (Cons c a)
  then show ?case by simp
qed

lemma one_line_let: "one_line p \<Longrightarrow> one_line (let_line p)"
  by (auto simp: one_line_def let_line_def nl_def)

lemma one_line_export: "one_line p \<Longrightarrow> one_line (export_line p)"
  by (auto simp: one_line_def export_line_def nl_def)

lemma export_line_is_export: "is_export_line (export_line p)"
  by (simp add: is_export_line_def export_line_def)

lemma let_line_not_export: "\<not> is_export_line (let_line p)"
  by (simp add: is_export_line_def let_line_def)

lemma export_line_inj: "export_line p = export_line q \<Longrightarrow> p = q"
proof -
  assume eq: "export_line p = export_line q"
  then have "length (export_line p) = length (export_line q)" by simp
  then have len: "length p = length q" by (simp add: export_line_def)
  from eq have "p @ ('' as '' @ p @ '' }'') = q @ ('' as '' @ q @ '' }'')"
    by (simp add: export_line_def)
  with len show "p = q" using append_eq_append_conv [of p q] by blast
qed

lemma empty_line_not_export: "\<not> is_export_line []"
  by (simp add: is_export_line_def)

lemma export_lines_of_bindings:
  assumes "one_line x" and "\<forall>p \<in> set props. one_line p"
  shows "filter is_export_line (split_lines (x @ join [nl] (map export_binding props) @ nl # rest))
       = filter is_export_line [x] @ map export_line props
         @ filter is_export_line (split_lines rest)"
  using assms
proof (induction props arbitrary: x)
  case Nil
  then show ?case by (simp add: split_lines_first)
next
  case (Cons p ps)
  have p1: "one_line p" using Cons.prems by simp
  have ps1: "\<forall>q \<in> set ps. one_line q" using Cons.prems by simp
  note x1 = Cons.prems(1) and l = one_line_let [OF p1] and e = one_line_export [OF p1]
  have three: "split_lines (x @ nl # (let_line p @ nl # (export_line p @ nl # tail)))
             = x # let_line p # export_line p # split_lines tail" for tail
    by (simp only: split_lines_first [OF x1] split_lines_first [OF l] split_lines_first [OF e])
  show ?case
  proof (cases ps)
    case Nil
    have "x @ join [nl] (map export_binding (p # ps)) @ nl # rest
          = x @ nl # (let_line p @ nl # (export_line p @ nl # rest))"
      by (simp add: Nil export_binding_def)
    then have "split_lines (x @ join [nl] (map export_binding (p # ps)) @ nl # rest)
          = x # let_line p # export_line p # split_lines rest"
      by (simp only: three)
    then show ?thesis
      by (simp add: Nil export_line_is_export let_line_not_export)
  next
    case (Cons q qs)
    have "x @ join [nl] (map export_binding (p # ps)) @ nl # rest
          = x @ nl # (let_line p @ nl # (export_line p @ nl #
              ([] @ join [nl] (map export_binding ps) @ nl # rest)))"
      by (simp add: Cons export_binding_def)
    then have "split_lines (x @ join [nl] (map export_binding (p # ps)) @ nl # rest)
          = x # let_line p # export_line p
            # split_lines ([] @ join [nl] (map export_binding ps) @ nl # rest)"
      by (simp only: three)
    moreover have "filter is_export_line
            (split_lines ([] @ join [nl] (map export_binding ps) @ nl # rest))
          = filter is_export_line [[]] @ map export_line ps
            @ filter is_export_line (split_lines rest)"
      using Cons.IH [of "[]"] ps1 by (simp add: one_line_def)
    ultimately show ?thesis
      by (simp add: export_line_is_export let_line_not_export empty_line_not_export)
  qed
qed

lemma rewritten_source_exports:
  assumes "one_line href" "one_line u" "one_line spec" "one_line p"
    and "\<forall>name \<in> set props. one_line name"
  shows "filter is_export_line (split_lines (rewritten_source href u spec p props))
       = map export_line props"
proof -
  have a: "one_line (import_shim_line href)"
    using assms(1) by (auto simp: one_line_def import_shim_line_def nl_def sq_def)
  have b: "one_line (import_original_line u)"
    using assms(2) by (auto simp: one_line_def import_original_line_def nl_def sq_def)
  have c: "one_line (wrap_line spec p)"
    using assms(3,4) by (auto simp: one_line_def wrap_line_def nl_def sq_def)
  have na: "\<not> is_export_line (import_shim_line href)"
    by (simp add: is_export_line_def import_shim_line_def)
  have nb: "\<not> is_export_line (import_original_line u)"
    by (simp add: is_export_line_def import_original_line_def)
  have nc: "\<not> is_export_line (wrap_line spec p)"
    by (simp add: is_export_line_def wrap_line_def)
  have d: "one_line ''    ''" and e: "one_line ''  ''" and f: "one_line []"
    by (simp_all add: one_line_def nl_def)
  have body: "filter is_export_line
                (split_lines (''    '' @ join [nl] (map export_binding props) @ nl # ''  ''))
              = map export_line props"
    using export_lines_of_bindings [OF d assms(5), of "''  ''"]
    by (simp add: split_lines_single [OF e] is_export_line_def)
  have "rewritten_source href u spec p props
        = [] @ nl # (import_shim_line href @ nl # (import_original_line u @ nl #
            (wrap_line spec p @ nl #
              (''    '' @ join [nl] (map export_binding props) @ nl # ''  ''))))"
    by (simp add: rewritten_source_def)
  then have "split_lines (rewritten_source href u spec p props)
        = [] # import_shim_line href # import_original_line u # wrap_line spec p
          # split_lines (''    '' @ join [nl] (map export_binding props) @ nl # ''  '')"
    by (simp only: split_lines_first [OF f] split_lines_first [OF a]
        split_lines_first [OF b] split_lines_first [OF c])
  then show ?thesis
    using body na nb nc by (simp add: is_export_line_def)
qed

lemma rewritten_source_imports:
  "str_includes (rewritten_source href u spec p props) (import_shim_line href)
   \<and> str_includes (rewritten_source href u spec p props) (import_original_line u)"
proof -
  have 1: "rewritten_source href u spec p props
        = [nl] @ import_shim_line href
          @ (nl # import_original_line u @ nl # wrap_line spec p
             @ nl # ''    '' @ join [nl] (map export_binding props) @ nl # ''  '')"
    by (simp add: rewritten_source_def)
  have 2: "rewritten_source href u spec p props
        = (nl # import_shim_line href @ [nl]) @ import_original_line u
          @ (nl # wrap_line spec p
             @ nl # ''    '' @ join [nl] (map export_binding props) @ nl # ''  '')"
    by (simp add: rewritten_source_def)
  show ?thesis
    using str_includes_append [of "[nl]" "import_shim_line href"]
      str_includes_append [of "nl # import_shim_line href @ [nl]" "import_original_line u"]
    by (metis 1 2)
qed

lemma count_list_filter_eq:
  "P x \<Longrightarrow> count_list (filter P xs) x = count_list xs x"
  by (induction xs) auto

lemma count_list_map_export_line:
  "count_list (map export_line props) (export_line name) = count_list props name"
  by (induction props) (auto dest: export_line_inj)

lemma str_includes_binding:
  "name \<in> set props \<Longrightarrow>
   \<exists>a b. join [nl] (map export_binding props) = a @ export_binding name @ b"
proof (induction props rule: induct_list012)
  case 1
  then show ?case by simp
next
  case (2 x)
  then have "join [nl] (map export_binding [x]) = [] @ export_binding name @ []" by simp
  then show ?case by blast
next
  case (3 x y zs)
  show ?case
  proof (cases "name = x")
    case True
    have "join [nl] (map export_binding (x # y # zs))
          = [] @ export_binding name @ ([nl] @ join [nl] (map export_binding (y # zs)))"
      by (simp add: True)
    then show ?thesis by blast
  next
    case False
    then have "name \<in> set (y # zs)" using 3 by simp
    then obtain a b where "join [nl] (map export_binding (y # zs)) = a @ export_binding name @ b"
      using 3 by blast
    then have "join [nl] (map export_binding (x # y # zs))
          = (export_binding x @ [nl] @ a) @ export_binding name @ b"
      by simp
    then show ?thesis by blast
  qed
qed

lemma rewritten_source_binding:
  assumes "name \<in> set props"
  shows "str_includes (rewritten_source href u spec p props) (export_binding name)"
proof -
  obtain a b where ab: "join [nl] (map export_binding props) = a @ export_binding name @ b"
    using str_includes_binding [OF assms] by blast
  have "rewritten_source href u spec p props
        = (nl # import_shim_line href @ nl # import_original_line u @ nl # wrap_line spec p
            @ nl # ''    '' @ a) @ export_binding name @ (b @ nl # ''  '')"
    by (simp add: rewritten_source_def ab)
  then show ?thesis
    using str_includes_append by metis
qed

lemma rewritten_source_wrap:
  "str_includes (rewritten_source href u spec p props) (wrap_line spec p)"
proof -
  have "rewritten_source href u spec p props
        = (nl # import_shim_line href @ nl # import_original_line u @ [nl]) @ wrap_line spec p
          @ (nl # ''    '' @ join [nl] (map export_binding props) @ nl # ''  '')"
    by (simp add: rewritten_source_def)
  then show ?thesis
    using str_includes_append by metis
qed

section \<open>Loader: what \<open>resolve\<close> returns and what it leaves alone\<close>

lemma resolve_passthrough:
  "\<not> agent e \<or> \<not> isSupportedVersion (process_version e) \<or> isFromEsmLoader ctx \<Longrightarrow>
   resolve e st spec ctx nextResolve = map_sum id (\<lambda>r. (r, st)) (nextResolve spec ctx)"
  by (auto simp: resolve_def split: sum.splits)

lemma resolve_Inr_next:
  "resolve e st spec ctx nextResolve = Inr (r, st') \<Longrightarrow> nextResolve spec ctx = Inr r"
  by (auto simp: resolve_def split: sum.splits if_splits option.splits)



lemma resolve_keeps_registry:
  "resolve e st spec ctx nextResolve = Inr (r, st') \<Longrightarrow>
   registeredInstrumentations st' = registeredInstrumentations st"
  by (auto simp: resolve_def split: sum.splits if_splits option.splits)


lemma resolve_returns_iff:
  assumes "nextResolve spec ctx = Inr r"
  shows "(map_sum id fst (resolve e st spec ctx nextResolve) = Inr r)
       = (\<not> (agent e \<and> isSupportedVersion (process_version e) \<and> \<not> isFromEsmLoader ctx
              \<and> ((registeredSpecifiers st (url r) \<noteq> None \<and> fileURLToPath e (url r) = None)
                  \<or> (registeredSpecifiers st (url r) = None
                      \<and> format r = Some live_mutation_format
                      \<and> (fileURLToPath e (url r) = None \<or> preloadPort st = None)))))"
  using assms
  by (auto simp: resolve_def live_mutation_format_def split: option.splits)

section \<open>Loader: properties of the hooks\<close>

text \<open>The definitions that evaluating the concrete inputs unfolds.\<close>

lemmas loader_example_defs =
  node18_def node14_def started_def loaded_def globalPreload_def pg_esm_def pg_cjs_def
  next_gives_def
  next_source_def pg_seen_def pg_posted_def pg_registered_def pg_descriptor_def pkgs_def
  registerInstrumentation_def hasValidRegisterOptions_def truthy_string_def lookup_def
  isSupportedVersion_def semver_gte_def isFromEsmLoader_def file_url_path_def
  rewrite_required_format_def live_mutation_format_def hasInstrumentation_def

lemma map_sum_fst_pair: "map_sum id fst (map_sum id (\<lambda>r. (r, s)) x) = x"
  by (cases x) simp_all

subsection \<open>Recording an instrumented module\<close>

text \<open>
  Claim C1, as the code has it. Past the guards (agent present, version supported, request
  not from the loader itself), when the next resolver gives a URL with no record yet, the
  format is the rewrite-required one (\<open>'module'\<close>) and the registry holds at least one
  descriptor under the specifier's canonical name, \<open>resolve\<close> stores a record for that URL
  with the specifier and \<open>hasNrInstrumentation: true\<close>, which is what \<open>load\<close> reads later,
  and returns the resolved record.
\<close>

theorem resolve_records_rewrite_required_module:
  assumes "agent e" and "isSupportedVersion (process_version e)" and "\<not> isFromEsmLoader ctx"
    and "nextResolve spec ctx = Inr r"
    and "registeredSpecifiers st (url r) = None"
    and "format r = Some rewrite_required_format"
    and "lookup (registeredInstrumentations st) (getInstrumentationNameFromModuleName e spec) \<noteq> []"
  shows "resolve e st spec ctx nextResolve
           = Inr (r, st\<lparr>registeredSpecifiers :=
                          (registeredSpecifiers st)
                            (url r \<mapsto> \<lparr>seen_specifier = spec, hasNrInstrumentation = True\<rparr>)\<rparr>)
       \<and> hasInstrumentation
            (st\<lparr>registeredSpecifiers :=
                  (registeredSpecifiers st)
                    (url r \<mapsto> \<lparr>seen_specifier = spec, hasNrInstrumentation = True\<rparr>)\<rparr>)
            (url r)"
proof -
  have "registeredInstrumentations st (getInstrumentationNameFromModuleName e spec) \<noteq> None"
    using assms(7) by (auto simp: lookup_def split: option.splits)
  then show ?thesis
    using assms(1-6)
    by (simp add: resolve_def rewrite_required_format_def hasInstrumentation_def)
qed

text \<open>Resolving \<open>pg\<close> to an ES module with \<open>pg\<close> registered.\<close>

theorem resolve_records_rewrite_required_module_witness:
  "resolve node18 started ''pg'' None (next_gives pg_esm) = Inr (pg_esm, pg_seen)
   \<and> hasInstrumentation pg_seen (url pg_esm)"
proof -
  have 1: "agent node18" and 2: "isSupportedVersion (process_version node18)"
    and 3: "\<not> isFromEsmLoader (None :: hook_context option)"
    and 4: "next_gives pg_esm ''pg'' None = Inr pg_esm"
    and 5: "registeredSpecifiers started (url pg_esm) = None"
    and 6: "format pg_esm = Some rewrite_required_format"
    and 7: "lookup (registeredInstrumentations started)
              (getInstrumentationNameFromModuleName node18 ''pg'') \<noteq> []"
    by (simp_all add: loader_example_defs)
  have "started\<lparr>registeredSpecifiers :=
                 (registeredSpecifiers started)
                   (url pg_esm \<mapsto> \<lparr>seen_specifier = ''pg'', hasNrInstrumentation = True\<rparr>)\<rparr>
        = pg_seen"
    by (simp add: pg_seen_def started_def loaded_def globalPreload_def)
  then show ?thesis
    using resolve_records_rewrite_required_module
      [where e = node18 and nextResolve = "next_gives pg_esm" and r = pg_esm and st = started,
       OF 1 2 3 4 5 6 7]
    by simp
qed

text \<open>
  Claim C1 as worded names the live-mutation format. For a CommonJS module the branch
  taken is the one that posts to the port: no record is stored, with the registry holding
  a descriptor for the specifier all the same.
\<close>

theorem resolve_live_mutation_counterexample:
  "agent node18 \<and> isSupportedVersion (process_version node18)
   \<and> next_gives pg_cjs ''pg'' None = Inr pg_cjs
   \<and> registeredSpecifiers started (url pg_cjs) = None
   \<and> format pg_cjs = Some live_mutation_format
   \<and> lookup (registeredInstrumentations started)
        (getInstrumentationNameFromModuleName node18 ''pg'') = [pg_descriptor]
   \<and> resolve node18 started ''pg'' None (next_gives pg_cjs) = Inr (pg_cjs, pg_posted)
   \<and> registeredSpecifiers pg_posted (url pg_cjs) = None
   \<and> \<not> hasInstrumentation pg_posted (url pg_cjs)"
  by (simp add: loader_example_defs resolve_def)

subsection \<open>Notifying the main thread\<close>

text \<open>
  Claim C2, as the code has it. Past the guards, when the next resolver gives a URL with no
  record yet and the format is the live-mutation one (\<open>'commonjs'\<close>), \<open>resolve\<close> posts on
  the preload port one message carrying the specifier, the resolved record and the file
  path of the URL, and returns the resolved record at once: the state it leaves differs
  from the one it found in the posted message only, no registration having happened. This
  needs the port to be set and the URL to convert to a path.
\<close>

theorem resolve_posts_live_mutation_module:
  assumes "agent e" and "isSupportedVersion (process_version e)" and "\<not> isFromEsmLoader ctx"
    and "nextResolve spec ctx = Inr r"
    and "registeredSpecifiers st (url r) = None"
    and "format r = Some live_mutation_format"
    and "fileURLToPath e (url r) = Some p"
    and "preloadPort st = Some posted"
  shows "resolve e st spec ctx nextResolve
           = Inr (r, st\<lparr>preloadPort :=
                          Some (posted @ [\<lparr>details_specifier = spec, resolvedModule = r,
                                           filePath = p\<rparr>])\<rparr>)"
  using assms by (simp add: resolve_def live_mutation_format_def)

text \<open>Resolving \<open>pg\<close> to a CommonJS module.\<close>

theorem resolve_posts_live_mutation_module_witness:
  "resolve node18 started ''pg'' None (next_gives pg_cjs) = Inr (pg_cjs, pg_posted)
   \<and> preloadPort pg_posted
       = Some [\<lparr>details_specifier = ''pg'', resolvedModule = pg_cjs,
                filePath = ''/app/node_modules/pg/lib/index.js''\<rparr>]
   \<and> registeredInstrumentations pg_posted = registeredInstrumentations started"
proof -
  have 1: "agent node18" and 2: "isSupportedVersion (process_version node18)"
    and 3: "\<not> isFromEsmLoader (None :: hook_context option)"
    and 4: "next_gives pg_cjs ''pg'' None = Inr pg_cjs"
    and 5: "registeredSpecifiers started (url pg_cjs) = None"
    and 6: "format pg_cjs = Some live_mutation_format"
    and 7: "fileURLToPath node18 (url pg_cjs) = Some ''/app/node_modules/pg/lib/index.js''"
    and 8: "preloadPort started = Some []"
    by (simp_all add: loader_example_defs)
  show ?thesis
    using resolve_posts_live_mutation_module
      [where e = node18 and nextResolve = "next_gives pg_cjs" and r = pg_cjs and st = started,
       OF 1 2 3 4 5 6 7 8]
    by (simp add: pg_posted_def)
qed

text \<open>
  Claim C2 as worded names the rewrite-required format. For an ES module nothing is
  posted: the port holds no message after the call.
\<close>

theorem resolve_rewrite_required_counterexample:
  "agent node18 \<and> isSupportedVersion (process_version node18)
   \<and> next_gives pg_esm ''pg'' None = Inr pg_esm
   \<and> registeredSpecifiers started (url pg_esm) = None
   \<and> format pg_esm = Some rewrite_required_format
   \<and> preloadPort started = Some []
   \<and> resolve node18 started ''pg'' None (next_gives pg_esm) = Inr (pg_esm, pg_seen)
   \<and> preloadPort pg_seen = Some []"
  by (simp add: loader_example_defs resolve_def)

subsection \<open>The load hook on an instrumented URL\<close>

text \<open>
  Claim C3, as the code has it. With the agent present and the version supported, for a URL
  whose record is marked \<open>hasNrInstrumentation\<close>, when the dynamic import of the module
  gives its export names and the URL converts to a file path, \<open>load\<close> returns
  \<open>format: 'module'\<close> (the rewrite-required format), \<open>shortCircuit: true\<close> and the rewritten
  source. That source contains the line importing \<open>wrapModule\<close> from the shim, the line
  importing the original module as \<open>_originalModule\<close>, the line building \<open>_wrappedModule\<close>
  from it with the specifier and the path, and for each export name the binding
  \<open>let _name = _wrappedModule.name\<close> followed by \<open>export { _name as name }\<close>. When no
  text put into the template holds a line feed, the export lines of the source are exactly
  these forwarding exports, in the order of the export names: each name has as many
  export lines as it has occurrences among the export names, that is one.
\<close>

theorem load_returns_rewritten_source:
  assumes "agent e" and "isSupportedVersion (process_version e)"
    and "registeredSpecifiers st u = Some seen" and "hasNrInstrumentation seen"
    and "import_keys e u = Inr props" and "fileURLToPath e u = Some p"
  shows "load e st u lctx nextLoad
           = Inr (\<lparr>load_format = rewrite_required_format,
                   source = Some (rewritten_source (esmShimPath_href e) u (seen_specifier seen) p props),
                   shortCircuit = True\<rparr>, st)
       \<and> str_includes (rewritten_source (esmShimPath_href e) u (seen_specifier seen) p props)
            (''    import wrapModule from '' @ [CHR 0x27] @ esmShimPath_href e @ [CHR 0x27])
       \<and> str_includes (rewritten_source (esmShimPath_href e) u (seen_specifier seen) p props)
            (''    import * as _originalModule from '' @ [CHR 0x27] @ u @ [CHR 0x27])
       \<and> str_includes (rewritten_source (esmShimPath_href e) u (seen_specifier seen) p props)
            (''    const _wrappedModule = wrapModule(_originalModule, '' @ [CHR 0x27]
               @ seen_specifier seen @ [CHR 0x27] @ '', '' @ [CHR 0x27] @ p @ [CHR 0x27] @ '')'')
       \<and> (\<forall>name \<in> set props.
            str_includes (rewritten_source (esmShimPath_href e) u (seen_specifier seen) p props)
              ([CHR 0x0A] @ ''    let _'' @ name @ '' = _wrappedModule.'' @ name
                 @ [CHR 0x0A] @ ''    export { _'' @ name @ '' as '' @ name @ '' }''))
       \<and> (one_line (esmShimPath_href e) \<and> one_line u \<and> one_line (seen_specifier seen)
            \<and> one_line p \<and> (\<forall>name \<in> set props. one_line name)
          \<longrightarrow> filter (\<lambda>l. take 11 l = ''    export '')
                (split_lines (rewritten_source (esmShimPath_href e) u (seen_specifier seen) p props))
              = map (\<lambda>name. ''    export { _'' @ name @ '' as '' @ name @ '' }'') props
            \<and> (\<forall>name.
                  count_list
                    (split_lines
                       (rewritten_source (esmShimPath_href e) u (seen_specifier seen) p props))
                    (''    export { _'' @ name @ '' as '' @ name @ '' }'')
                  = count_list props name))"
proof -
  let ?src = "rewritten_source (esmShimPath_href e) u (seen_specifier seen) p props"
  have shim: "import_shim_line h = ''    import wrapModule from '' @ [CHR 0x27] @ h @ [CHR 0x27]"
    for h by (simp add: import_shim_line_def sq_def)
  have orig: "import_original_line v
              = ''    import * as _originalModule from '' @ [CHR 0x27] @ v @ [CHR 0x27]"
    for v by (simp add: import_original_line_def sq_def)
  have wrap: "wrap_line s q
              = ''    const _wrappedModule = wrapModule(_originalModule, '' @ [CHR 0x27]
                  @ s @ [CHR 0x27] @ '', '' @ [CHR 0x27] @ q @ [CHR 0x27] @ '')''"
    for s q by (simp add: wrap_line_def sq_def)
  have bind: "export_binding name
              = [CHR 0x0A] @ ''    let _'' @ name @ '' = _wrappedModule.'' @ name
                  @ [CHR 0x0A] @ ''    export { _'' @ name @ '' as '' @ name @ '' }''"
    for name by (simp add: export_binding_def let_line_def export_line_def nl_def)
  have expo: "export_line = (\<lambda>name. ''    export { _'' @ name @ '' as '' @ name @ '' }'')"
    by (rule ext) (simp add: export_line_def)
  have isex: "is_export_line = (\<lambda>l. take 11 l = ''    export '')"
    by (rule ext) (simp add: is_export_line_def)
  have ret: "load e st u lctx nextLoad
           = Inr (\<lparr>load_format = rewrite_required_format, source = Some ?src,
                   shortCircuit = True\<rparr>, st)"
    using assms by (simp add: load_def wrapEsmSource_def rewrite_required_format_def)
  have imp1: "str_includes ?src (import_shim_line (esmShimPath_href e))"
    and imp2: "str_includes ?src (import_original_line u)"
    using rewritten_source_imports by blast+
  have imp3: "str_includes ?src (wrap_line (seen_specifier seen) p)"
    by (rule rewritten_source_wrap)
  have binds: "\<forall>name \<in> set props. str_includes ?src (export_binding name)"
    using rewritten_source_binding by blast
  have count: "count_list (split_lines ?src) (export_line name) = count_list props name"
    if flt: "filter is_export_line (split_lines ?src) = map export_line props" for name
  proof -
    have "count_list (split_lines ?src) (export_line name)
          = count_list (filter is_export_line (split_lines ?src)) (export_line name)"
      using count_list_filter_eq [of is_export_line "export_line name" "split_lines ?src"]
        export_line_is_export [of name] by simp
    also have "\<dots> = count_list props name"
      by (simp only: flt count_list_map_export_line)
    finally show ?thesis .
  qed
  have lines: "one_line (esmShimPath_href e) \<and> one_line u \<and> one_line (seen_specifier seen)
            \<and> one_line p \<and> (\<forall>name \<in> set props. one_line name)
          \<longrightarrow> filter is_export_line (split_lines ?src) = map export_line props
            \<and> (\<forall>name. count_list (split_lines ?src) (export_line name) = count_list props name)"
    using rewritten_source_exports [of "esmShimPath_href e" u "seen_specifier seen" p props] count
    by blast
  from ret imp1 imp2 imp3 binds lines
  have "load e st u lctx nextLoad
           = Inr (\<lparr>load_format = rewrite_required_format, source = Some ?src,
                   shortCircuit = True\<rparr>, st)
       \<and> str_includes ?src (import_shim_line (esmShimPath_href e))
       \<and> str_includes ?src (import_original_line u)
       \<and> str_includes ?src (wrap_line (seen_specifier seen) p)
       \<and> (\<forall>name \<in> set props. str_includes ?src (export_binding name))
       \<and> (one_line (esmShimPath_href e) \<and> one_line u \<and> one_line (seen_specifier seen)
            \<and> one_line p \<and> (\<forall>name \<in> set props. one_line name)
          \<longrightarrow> filter is_export_line (split_lines ?src) = map export_line props
            \<and> (\<forall>name. count_list (split_lines ?src) (export_line name) = count_list props name))"
    by blast
  then show ?thesis
    unfolding shim orig wrap bind expo isex .
qed

text \<open>
  Loading the ES module of \<open>pg\<close>, with exports \<open>Client\<close> and \<open>default\<close>: the source is the
  written-out text, with one export line for each and none for another name.
\<close>

theorem load_returns_rewritten_source_witness:
  "load node18 pg_seen (url pg_esm) () next_source
     = Inr (\<lparr>load_format = ''module'', source = Some pg_rewritten, shortCircuit = True\<rparr>, pg_seen)
   \<and> filter (\<lambda>l. take 11 l = ''    export '') (split_lines pg_rewritten)
       = [''    export { _Client as Client }'', ''    export { _default as default }'']
   \<and> count_list (split_lines pg_rewritten) ''    export { _Client as Client }'' = 1
   \<and> count_list (split_lines pg_rewritten) ''    export { _default as default }'' = 1
   \<and> count_list (split_lines pg_rewritten) ''    export { _query as query }'' = 0"
proof -
  have 1: "agent node18" and 2: "isSupportedVersion (process_version node18)"
    and 3: "registeredSpecifiers pg_seen (url pg_esm)
             = Some \<lparr>seen_specifier = ''pg'', hasNrInstrumentation = True\<rparr>"
    and 4: "hasNrInstrumentation \<lparr>seen_specifier = ''pg'', hasNrInstrumentation = True\<rparr>"
    and 5: "import_keys node18 (url pg_esm) = Inr [''Client'', ''default'']"
    and 6: "fileURLToPath node18 (url pg_esm) = Some ''/app/node_modules/pg/esm/index.mjs''"
    by (simp_all add: loader_example_defs)
  have src: "rewritten_source (esmShimPath_href node18) (url pg_esm)
               (seen_specifier \<lparr>seen_specifier = ''pg'', hasNrInstrumentation = True\<rparr>)
               ''/app/node_modules/pg/esm/index.mjs'' [''Client'', ''default'']
             = pg_rewritten"
    by (simp add: pg_rewritten_def node18_def pg_esm_def rewritten_source_def
        import_shim_line_def import_original_line_def wrap_line_def export_binding_def
        let_line_def export_line_def nl_def sq_def)
  have lines: "one_line (esmShimPath_href node18) \<and> one_line (url pg_esm)
        \<and> one_line (seen_specifier \<lparr>seen_specifier = ''pg'', hasNrInstrumentation = True\<rparr>)
        \<and> one_line ''/app/node_modules/pg/esm/index.mjs''
        \<and> (\<forall>name \<in> set [''Client'', ''default'']. one_line name)"
    by (simp add: one_line_def nl_def node18_def pg_esm_def)
  note inst = load_returns_rewritten_source
    [where e = node18 and st = pg_seen and lctx = "()" and nextLoad = next_source,
     OF 1 2 3 4 5 6, unfolded src]
  have c: "count_list [''Client'', ''default''] ''Client'' = 1"
    "count_list [''Client'', ''default''] ''default'' = 1"
    "count_list [''Client'', ''default''] ''query'' = 0"
    by simp_all
  from inst lines
  have flt: "filter (\<lambda>l. take 11 l = ''    export '') (split_lines pg_rewritten)
               = map (\<lambda>name. ''    export { _'' @ name @ '' as '' @ name @ '' }'')
                   [''Client'', ''default'']"
    and cnt: "\<And>name. count_list (split_lines pg_rewritten)
                 (''    export { _'' @ name @ '' as '' @ name @ '' }'')
               = count_list [''Client'', ''default''] name"
    and ret: "load node18 pg_seen (url pg_esm) () next_source
               = Inr (\<lparr>load_format = rewrite_required_format, source = Some pg_rewritten,
                       shortCircuit = True\<rparr>, pg_seen)"
    by blast+
  show ?thesis
    using flt cnt [of "''Client''"] cnt [of "''default''"] cnt [of "''query''"] ret c
    by (simp add: rewrite_required_format_def)
qed

text \<open>
  Claim C3 as worded speaks of every URL whose record is marked. \<open>wrapEsmSource\<close> first
  imports the module; when that import rejects, \<open>load\<close> rejects with it and returns no
  source, for a URL that \<open>resolve\<close> itself has recorded.
\<close>

theorem load_import_rejects_counterexample:
  "agent node18_import_rejects
   \<and> isSupportedVersion (process_version node18_import_rejects)
   \<and> resolve node18_import_rejects started ''pg'' None (next_gives pg_esm)
       = Inr (pg_esm, pg_seen)
   \<and> hasInstrumentation pg_seen (url pg_esm)
   \<and> load node18_import_rejects pg_seen (url pg_esm) () next_source
       = Inl (Rejected ''SyntaxError'')"
  by (simp add: node18_import_rejects_def loader_example_defs resolve_def load_def
      wrapEsmSource_def)

subsection \<open>The resolve hook only observes\<close>

text \<open>
  Claim C4, as the code has it. Whatever the specifier, the context and the state, a record
  that \<open>resolve\<close> returns is the record the next resolver produced, unmodified, and a
  rejection of the next resolver is passed on as it is. When the next resolver produced a
  record, \<open>resolve\<close> returns it on each of its paths, provided that, past the guards, the
  URL converts to a file path where the hook converts it (the URL has a record already, or
  the format is \<open>'commonjs'\<close>) and the preload port is set where the hook posts on it (no
  record yet and format \<open>'commonjs'\<close>). Before the guards, for format \<open>'module'\<close> and for
  any other format nothing more is needed.
\<close>

theorem resolve_returns_next_record_when_it_returns:
  "(\<forall>r' st'. resolve e st spec ctx nextResolve = Inr (r', st')
       \<longrightarrow> nextResolve spec ctx = Inr r')
   \<and> (nextResolve spec ctx = Inl err \<longrightarrow> resolve e st spec ctx nextResolve = Inl err)
   \<and> (nextResolve spec ctx = Inr r
       \<and> (agent e \<and> isSupportedVersion (process_version e) \<and> \<not> isFromEsmLoader ctx
            \<and> (registeredSpecifiers st (url r) \<noteq> None \<or> format r = Some live_mutation_format)
          \<longrightarrow> fileURLToPath e (url r) \<noteq> None)
       \<and> (agent e \<and> isSupportedVersion (process_version e) \<and> \<not> isFromEsmLoader ctx
            \<and> registeredSpecifiers st (url r) = None \<and> format r = Some live_mutation_format
          \<longrightarrow> preloadPort st \<noteq> None)
       \<longrightarrow> map_sum id fst (resolve e st spec ctx nextResolve) = Inr r)"
proof -
  have a: "\<forall>r' st'. resolve e st spec ctx nextResolve = Inr (r', st')
             \<longrightarrow> nextResolve spec ctx = Inr r'"
    using resolve_Inr_next by blast
  have b: "resolve e st spec ctx nextResolve = Inl err" if "nextResolve spec ctx = Inl err"
    using that by (simp add: resolve_def)
  have c: "map_sum id fst (resolve e st spec ctx nextResolve) = Inr r"
    if n: "nextResolve spec ctx = Inr r"
      and "agent e \<and> isSupportedVersion (process_version e) \<and> \<not> isFromEsmLoader ctx
            \<and> (registeredSpecifiers st (url r) \<noteq> None \<or> format r = Some live_mutation_format)
          \<longrightarrow> fileURLToPath e (url r) \<noteq> None"
      and "agent e \<and> isSupportedVersion (process_version e) \<and> \<not> isFromEsmLoader ctx
            \<and> registeredSpecifiers st (url r) = None \<and> format r = Some live_mutation_format
          \<longrightarrow> preloadPort st \<noteq> None"
    using that(2,3)
    unfolding resolve_returns_iff [where nextResolve = nextResolve and spec = spec and ctx = ctx, OF n]
    by blast
  from a b c show ?thesis by blast
qed

text \<open>
  The guard with the port unset, an ES module with the port unset, a CommonJS module with
  the port set, and a URL already recorded.
\<close>

theorem resolve_returns_next_record_when_it_returns_witness:
  "map_sum id fst (resolve node14 loaded ''pg'' None (next_gives pg_cjs)) = Inr pg_cjs
   \<and> map_sum id fst (resolve node18 loaded ''pg'' None (next_gives pg_esm)) = Inr pg_esm
   \<and> map_sum id fst (resolve node18 started ''pg'' None (next_gives pg_cjs)) = Inr pg_cjs
   \<and> map_sum id fst (resolve node18 pg_seen ''pg'' None (next_gives pg_esm)) = Inr pg_esm"
proof -
  have g: "\<not> isSupportedVersion (process_version node14)"
    by (simp add: loader_example_defs)
  have m: "registeredSpecifiers loaded (url pg_esm) = None
           \<and> format pg_esm \<noteq> Some live_mutation_format"
    by (simp add: loader_example_defs)
  have c: "fileURLToPath node18 (url pg_cjs) \<noteq> None \<and> preloadPort started \<noteq> None"
    by (simp add: loader_example_defs)
  have s: "fileURLToPath node18 (url pg_esm) \<noteq> None
           \<and> registeredSpecifiers pg_seen (url pg_esm) \<noteq> None"
    by (simp add: loader_example_defs)
  have n: "next_gives pg_cjs ''pg'' (None :: hook_context option) = Inr pg_cjs"
    "next_gives pg_esm ''pg'' (None :: hook_context option) = Inr pg_esm"
    by (simp_all add: next_gives_def)
  have 1: "map_sum id fst (resolve node14 loaded ''pg'' None (next_gives pg_cjs)) = Inr pg_cjs"
    using resolve_returns_next_record_when_it_returns
        [where e = node14 and st = loaded and spec = "''pg''" and ctx = None
           and nextResolve = "next_gives pg_cjs" and r = pg_cjs
           and err = TypeError]
      g n by simp
  have 2: "map_sum id fst (resolve node18 loaded ''pg'' None (next_gives pg_esm)) = Inr pg_esm"
    using resolve_returns_next_record_when_it_returns
        [where e = node18 and st = loaded and spec = "''pg''" and ctx = None
           and nextResolve = "next_gives pg_esm" and r = pg_esm
           and err = TypeError]
      m n by simp
  have 3: "map_sum id fst (resolve node18 started ''pg'' None (next_gives pg_cjs)) = Inr pg_cjs"
    using resolve_returns_next_record_when_it_returns
        [where e = node18 and st = started and spec = "''pg''" and ctx = None
           and nextResolve = "next_gives pg_cjs" and r = pg_cjs
           and err = TypeError]
      c n by simp
  have 4: "map_sum id fst (resolve node18 pg_seen ''pg'' None (next_gives pg_esm)) = Inr pg_esm"
    using resolve_returns_next_record_when_it_returns
        [where e = node18 and st = pg_seen and spec = "''pg''" and ctx = None
           and nextResolve = "next_gives pg_esm" and r = pg_esm
           and err = TypeError]
      s n by simp
  from 1 2 3 4 show ?thesis by blast
qed

text \<open>
  Claim C4 as worded has \<open>resolve\<close> return the record on every control path. On the
  \<open>'commonjs'\<close> path with \<open>preloadPort\<close> still \<open>undefined\<close>, the post on the port throws and
  no record is returned, the next resolver having produced one.
\<close>

theorem resolve_port_unset_counterexample:
  "next_gives pg_cjs ''pg'' None = Inr pg_cjs
   \<and> agent node18 \<and> isSupportedVersion (process_version node18)
   \<and> preloadPort loaded = None
   \<and> resolve node18 loaded ''pg'' None (next_gives pg_cjs) = Inl TypeError"
  by (simp add: loader_example_defs resolve_def)

subsection \<open>Agent absent or version unsupported\<close>

text \<open>
  Claim C5. When the agent is absent or the runtime version is unsupported, \<open>resolve\<close> and
  \<open>load\<close> give the result of the next hook in the chain unchanged, a rejection included,
  and leave the whole state (registry, resolution records, port) as it was. Neither table
  is consulted: the result is the next hook's for every state, so it is the same in any
  two states.
\<close>

theorem hooks_pass_through_when_disabled:
  assumes "\<not> agent e \<or> \<not> isSupportedVersion (process_version e)"
  shows "resolve e st spec ctx nextResolve = map_sum id (\<lambda>r. (r, st)) (nextResolve spec ctx)
       \<and> load e st u lctx nextLoad = map_sum id (\<lambda>res. (res, st)) (nextLoad u lctx)
       \<and> map_sum id fst (resolve e st spec ctx nextResolve) = nextResolve spec ctx
       \<and> map_sum id fst (load e st u lctx nextLoad) = nextLoad u lctx
       \<and> map_sum id fst (resolve e st spec ctx nextResolve)
           = map_sum id fst (resolve e other spec ctx nextResolve)
       \<and> map_sum id fst (load e st u lctx nextLoad)
           = map_sum id fst (load e other u lctx nextLoad)"
proof -
  have r: "resolve e s spec ctx nextResolve = map_sum id (\<lambda>r. (r, s)) (nextResolve spec ctx)"
    for s :: "'a loader_state"
    using assms resolve_passthrough [of e ctx s spec nextResolve] by blast
  have l: "load e s u lctx nextLoad = map_sum id (\<lambda>res. (res, s)) (nextLoad u lctx)"
    for s :: "'a loader_state"
    using assms by (auto simp: load_def split: sum.splits)
  show ?thesis
    by (simp add: r l map_sum_fst_pair)
qed

text \<open>Node 14, and Node 18 without agent; the load is of a URL recorded as instrumented.\<close>

theorem hooks_pass_through_when_disabled_witness:
  "\<not> isSupportedVersion (process_version node14)
   \<and> resolve node14 started ''pg'' None (next_gives pg_esm) = Inr (pg_esm, started)
   \<and> load node14 pg_seen (url pg_esm) () next_source
       = Inr (\<lparr>load_format = ''module'', source = Some ''export class Client {}'',
               shortCircuit = False\<rparr>, pg_seen)
   \<and> resolve (node18\<lparr>agent := False\<rparr>) started ''pg'' None (next_gives pg_esm)
       = Inr (pg_esm, started)"
proof -
  have v: "\<not> isSupportedVersion (process_version node14)"
    by (simp add: loader_example_defs)
  then have a: "\<not> agent node14 \<or> \<not> isSupportedVersion (process_version node14)"
    by simp
  have b: "\<not> agent (node18\<lparr>agent := False\<rparr>)
           \<or> \<not> isSupportedVersion (process_version (node18\<lparr>agent := False\<rparr>))"
    by simp
  show ?thesis
    using v
      hooks_pass_through_when_disabled
        [where e = node14 and st = started and spec = "''pg''" and ctx = None
           and nextResolve = "next_gives pg_esm" and u = "url pg_esm" and lctx = "()"
           and nextLoad = next_source and other = started, OF a]
      hooks_pass_through_when_disabled
        [where e = node14 and st = pg_seen and spec = "''pg''" and ctx = None
           and nextResolve = "next_gives pg_esm" and u = "url pg_esm" and lctx = "()"
           and nextLoad = next_source and other = started, OF a]
      hooks_pass_through_when_disabled
        [where e = "node18\<lparr>agent := False\<rparr>" and st = started and spec = "''pg''" and ctx = None
           and nextResolve = "next_gives pg_esm" and u = "url pg_esm" and lctx = "()"
           and nextLoad = next_source and other = started, OF b]
    by (simp add: next_gives_def next_source_def)
qed

subsection \<open>Resolving a URL twice\<close>




end
